theory Spec2Isabelle
  imports Complex_Main "HOL-Library.Product_Lexorder"
begin

section \<open>Python values, dictionaries and errors\<close>

text \<open>
  Token patterns are Python dictionaries whose values are strings, booleans, numbers,
  nested dictionaries (the constraint objects) or lists. A dictionary keeps its
  insertion order and has unique keys, so it is an association list.
  Strings are taken to be ASCII: \<open>str.lower\<close> maps \<open>A\<close>..\<open>Z\<close> to
  \<open>a\<close>..\<open>z\<close> and \<open>len\<close> counts characters.
\<close>

datatype pyval =
    VNone
  | VBool bool
  | VInt int
  | VStr string
  | VDict "(string \<times> pyval) list"
  | VList "pyval list"

type_synonym pydict = "(string \<times> pyval) list"
type_synonym token_spec = pydict
type_synonym pattern = "token_spec list"

datatype py_error =
    TypeError
  | ValueError
  | IndexError
  | KeyError
  | ZeroDivisionError
  | RegistryError
  | RegexError
  | MatchPatternError

text \<open>\<open>d.get(k)\<close>, \<open>d.get(k, default)\<close>, \<open>k in d\<close>, \<open>d[k] = v\<close> and \<open>del d[k]\<close>.\<close>

definition dict_get :: "('k \<times> pyval) list \<Rightarrow> 'k \<Rightarrow> pyval" where
  "dict_get d k = (case map_of d k of None \<Rightarrow> VNone | Some v \<Rightarrow> v)"

definition dict_get_default :: "('k \<times> 'v) list \<Rightarrow> 'k \<Rightarrow> 'v \<Rightarrow> 'v" where
  "dict_get_default d k dflt = (case map_of d k of None \<Rightarrow> dflt | Some v \<Rightarrow> v)"

definition dict_keys :: "('k \<times> 'v) list \<Rightarrow> 'k list" where
  "dict_keys d = map fst d"

definition dict_has :: "('k \<times> 'v) list \<Rightarrow> 'k \<Rightarrow> bool" where
  "dict_has d k = (k \<in> set (dict_keys d))"

fun dict_set :: "'k \<Rightarrow> 'v \<Rightarrow> ('k \<times> 'v) list \<Rightarrow> ('k \<times> 'v) list" where
  "dict_set k v [] = [(k, v)]"
| "dict_set k v (p # d) = (if fst p = k then (k, v) # d else p # dict_set k v d)"

definition dict_del :: "'k \<Rightarrow> ('k \<times> 'v) list \<Rightarrow> ('k \<times> 'v) list" where
  "dict_del k d = filter (\<lambda>p. fst p \<noteq> k) d"

text \<open>Truth value of an object in a condition (\<open>if text:\<close>).\<close>

fun truthy :: "pyval \<Rightarrow> bool" where
  "truthy VNone = False"
| "truthy (VBool b) = b"
| "truthy (VInt n) = (n \<noteq> 0)"
| "truthy (VStr s) = (s \<noteq> [])"
| "truthy (VDict d) = (d \<noteq> [])"
| "truthy (VList l) = (l \<noteq> [])"

text \<open>A number usable as a score cutoff (\<open>bool\<close> is a subclass of \<open>int\<close>).\<close>

fun as_int :: "pyval \<Rightarrow> int option" where
  "as_int (VInt n) = Some n"
| "as_int (VBool b) = Some (if b then 1 else 0)"
| "as_int _ = None"

fun as_str :: "pyval \<Rightarrow> string option" where
  "as_str (VStr s) = Some s"
| "as_str _ = None"

definition lower_char :: "char \<Rightarrow> char" where
  "lower_char c =
     (let n = (of_char c :: nat) in if 65 \<le> n \<and> n \<le> 90 then char_of (n + 32) else c)"

definition lower :: "string \<Rightarrow> string" where
  "lower s = map lower_char s"

text \<open>
  \<open>round\<close> of a float: to the nearest integer, a tie going to the even neighbour.
  Floats are modelled by rationals; the rounding error of the float operations is
  outside the model.
\<close>

definition py_round :: "rat \<Rightarrow> int" where
  "py_round x =
     (let f = \<lfloor>x\<rfloor>; d = x - of_int f
      in if d < 1 / 2 then f else if 1 / 2 < d then f + 1 else if even f then f else f + 1)"

section \<open>Documents and the external collaborators\<close>

record token =
  tok_text :: string

type_synonym doc = "token list"

text \<open>
  A slot result as the searcher builds it is \<open>None\<close> or the pair
  \<open>(case, text)\<close>; the matcher's annotations speak of triples
  \<open>(case, text, ratio)\<close>.
\<close>

datatype slot =
    SNone
  | SPair string string
  | STriple string string int

record match_record =
  m_label :: string
  m_start :: int
  m_end :: int
  m_ratio :: int
  m_pattern :: string

text \<open>
  The collaborators the two modules import but do not define:
  \<^item> \<open>fuzzy_funcs\<close>: the registry, a function name to its similarity function;
  \<^item> \<open>regex_compile\<close>: the regex engine, \<open>None\<close> for a pattern it refuses to
    compile, otherwise the test \<open>regex.match(pattern, text)\<close>;
  \<^item> \<open>exact_matcher\<close>: spaCy's \<open>Matcher\<close> holding one pattern under one label,
    called on the document; the labels it returns are already looked up in the
    vocabulary's string store;
  \<^item> \<open>json_dumps\<close>: the serialisation of a pattern;
  \<^item> \<open>set_order\<close>: the order in which a Python set of match tuples is iterated.
\<close>

record env =
  fuzzy_funcs :: "string \<Rightarrow> (string \<Rightarrow> string \<Rightarrow> rat) option"
  regex_compile :: "string \<Rightarrow> (string \<Rightarrow> bool) option"
  exact_matcher :: "string \<Rightarrow> pattern \<Rightarrow> doc \<Rightarrow> py_error + (string \<times> nat \<times> nat) list"
  json_dumps :: "pattern \<Rightarrow> string"
  set_order :: "match_record list \<Rightarrow> match_record list"

text \<open>
  Modelled from the spec: the registry module and the rapidfuzz functions it holds are
  not among the sources. A registered function maps \<open>(a, b, score_cutoff)\<close> to a
  ratio, and "for ratio < score_cutoff, 0 is returned instead" (the docstring of
  \<open>fuzzy_compare\<close>). The registry of \<open>env\<close> holds the ratio without cutoff.
\<close>

definition registry_call :: "(string \<Rightarrow> string \<Rightarrow> rat) \<Rightarrow> string \<Rightarrow> string \<Rightarrow> int \<Rightarrow> rat" where
  "registry_call f s1 s2 score_cutoff =
     (if f s1 s2 < of_int score_cutoff then 0 else f s1 s2)"

text \<open>
  Modelled from the spec: \<open>util.n_wise\<close> is not among the sources. It yields "every
  contiguous window of the document whose length equals the pattern length (if the
  document is shorter than the pattern, zero windows are produced)", left to right.
\<close>

definition n_wise :: "'a list \<Rightarrow> nat \<Rightarrow> 'a list list" where
  "n_wise xs n = map (\<lambda>i. take n (drop i xs)) [0 ..< Suc (length xs) - n]"

section \<open>The token searcher\<close>

definition fuzzy_compare ::
  "env \<Rightarrow> string \<Rightarrow> string \<Rightarrow> bool \<Rightarrow> int \<Rightarrow> string \<Rightarrow> py_error + int" where
  "fuzzy_compare e s1 s2 ignore_case score_cutoff fuzzy_func =
     (let s1' = (if ignore_case then lower s1 else s1);
          s2' = (if ignore_case then lower s2 else s2)
      in case fuzzy_funcs e fuzzy_func of
           None \<Rightarrow> Inl RegistryError
         | Some f \<Rightarrow> Inr (py_round (registry_call f s1' s2' score_cutoff)))"

definition regex_compare :: "env \<Rightarrow> string \<Rightarrow> string \<Rightarrow> bool \<Rightarrow> py_error + bool" where
  "regex_compare e txt pat ignore_case =
     (let txt' = (if ignore_case then lower txt else txt)
      in case regex_compile e pat of
           None \<Rightarrow> Inl RegexError
         | Some m \<Rightarrow> Inr (m txt'))"

definition parse_case :: "token_spec \<Rightarrow> pyval \<times> string \<times> bool" where
  "parse_case tok =
     (let txt = dict_get tok ''TEXT''
      in if truthy txt then (txt, ''TEXT'', False)
         else (dict_get tok ''LOWER'', ''LOWER'', True))"

definition parse_type :: "pydict \<Rightarrow> string \<times> string" where
  "parse_type pattern_dict =
     (case dict_get pattern_dict ''FUZZY'' of
        VStr fuzzy_text \<Rightarrow> (fuzzy_text, ''FUZZY'')
      | _ \<Rightarrow>
        (case dict_get pattern_dict ''FREGEX'' of
           VStr regex_text \<Rightarrow> (regex_text, ''FREGEX'')
         | _ \<Rightarrow> ('''', '''')))"

text \<open>
  The body of the loop of \<open>_iter_pattern\<close> for one token-spec: the slot result to
  append, or the rejection of the window (\<open>return []\<close>).
\<close>

datatype verdict = Rejected | Recorded slot

definition iter_dict ::
  "env \<Rightarrow> token list \<Rightarrow> int \<Rightarrow> string \<Rightarrow> nat \<Rightarrow> pydict \<Rightarrow> string \<Rightarrow> bool
     \<Rightarrow> py_error + verdict" where
  "iter_dict e seq min_r fuzzy_func i pattern_dict case_name case_flag =
     (case parse_type pattern_dict of (pattern_text, pattern_type) \<Rightarrow>
        if pattern_text \<noteq> [] \<and> pattern_type = ''FUZZY'' then
          (if length seq \<le> i then Inl IndexError
           else case as_str (dict_get_default pattern_dict ''FUZZY_FUNC'' (VStr fuzzy_func)) of
             None \<Rightarrow> Inl RegistryError
           | Some fname \<Rightarrow>
             (case fuzzy_funcs e fname of
                None \<Rightarrow> Inl RegistryError
              | Some _ \<Rightarrow>
                (case as_int (dict_get_default pattern_dict ''MIN_R'' (VInt min_r)) of
                   None \<Rightarrow> Inl TypeError
                 | Some min_r' \<Rightarrow>
                   (case fuzzy_compare e (tok_text (seq ! i)) pattern_text case_flag min_r' fname of
                      Inl err \<Rightarrow> Inl err
                    | Inr r \<Rightarrow>
                      if min_r' \<le> r then Inr (Recorded (SPair case_name (tok_text (seq ! i))))
                      else Inr Rejected))))
        else if pattern_text \<noteq> [] \<and> pattern_type = ''FREGEX'' then
          (if length seq \<le> i then Inl IndexError
           else case regex_compare e (tok_text (seq ! i)) pattern_text case_flag of
             Inl err \<Rightarrow> Inl err
           | Inr b \<Rightarrow>
             if b then Inr (Recorded (SPair case_name (tok_text (seq ! i)))) else Inr Rejected)
        else Inr (Recorded SNone))"

definition iter_slot ::
  "env \<Rightarrow> token list \<Rightarrow> int \<Rightarrow> string \<Rightarrow> nat \<Rightarrow> token_spec \<Rightarrow> py_error + verdict" where
  "iter_slot e seq min_r fuzzy_func i tok =
     (case parse_case tok of (pattern_dict, case_name, case_flag) \<Rightarrow>
        (case pattern_dict of
           VDict d \<Rightarrow> iter_dict e seq min_r fuzzy_func i d case_name case_flag
         | _ \<Rightarrow> Inr (Recorded SNone)))"

fun iter_pattern_from ::
  "env \<Rightarrow> token list \<Rightarrow> int \<Rightarrow> string \<Rightarrow> nat \<Rightarrow> token_spec list \<Rightarrow> slot list
     \<Rightarrow> py_error + slot list" where
  "iter_pattern_from e seq min_r fuzzy_func i [] seq_matches = Inr seq_matches"
| "iter_pattern_from e seq min_r fuzzy_func i (tok # rest) seq_matches =
     (case iter_slot e seq min_r fuzzy_func i tok of
        Inl err \<Rightarrow> Inl err
      | Inr Rejected \<Rightarrow> Inr []
      | Inr (Recorded s) \<Rightarrow>
          iter_pattern_from e seq min_r fuzzy_func (Suc i) rest (seq_matches @ [s]))"

definition iter_pattern ::
  "env \<Rightarrow> token list \<Rightarrow> pattern \<Rightarrow> int \<Rightarrow> string \<Rightarrow> py_error + slot list" where
  "iter_pattern e seq pat min_r fuzzy_func = iter_pattern_from e seq min_r fuzzy_func 0 pat []"

text \<open>
  \<open>match\<close>: the windows are scanned left to right, the non-empty results are kept,
  and a result equal to an earlier one is dropped. The two \<open>isinstance\<close> checks hold
  by the types of \<open>doc\<close> and \<open>pattern\<close>.
\<close>

fun match_windows ::
  "env \<Rightarrow> token list list \<Rightarrow> pattern \<Rightarrow> int \<Rightarrow> string \<Rightarrow> slot list list
     \<Rightarrow> py_error + slot list list" where
  "match_windows e [] pat min_r fuzzy_func matches = Inr matches"
| "match_windows e (seq # seqs) pat min_r fuzzy_func matches =
     (case iter_pattern e seq pat min_r fuzzy_func of
        Inl err \<Rightarrow> Inl err
      | Inr seq_matches \<Rightarrow>
          match_windows e seqs pat min_r fuzzy_func
            (if seq_matches \<noteq> [] then matches @ [seq_matches] else matches))"

definition first_seen :: "'a list \<Rightarrow> 'a list" where
  "first_seen matches =
     map snd (filter (\<lambda>(i, m). m \<notin> set (take i matches)) (enumerate 0 matches))"

definition match :: "env \<Rightarrow> doc \<Rightarrow> pattern \<Rightarrow> int \<Rightarrow> string \<Rightarrow> py_error + slot list list" where
  "match e d pat min_r fuzzy_func =
     (if length pat = 0 then Inl ValueError
      else case match_windows e (n_wise d (length pat)) pat min_r fuzzy_func [] of
        Inl err \<Rightarrow> Inl err
      | Inr matches \<Rightarrow> Inr (if matches \<noteq> [] then first_seen matches else matches))"

section \<open>The token matcher\<close>

text \<open>
  The matcher's state. \<open>defaults\<close> are the keyword arguments handed on to
  \<open>match\<close> (those it does not give keep the defaults of \<open>match\<close>, 75 and
  \<open>simple\<close>); \<open>priv_patterns\<close> is the default dictionary \<open>_patterns\<close>, label to
  pattern list; \<open>priv_callbacks\<close> is \<open>_callbacks\<close>, label to an optional callback.
  A callback receives the document's tokens, the state it may change (type \<open>'d\<close>,
  the entities of the document for instance), the index and the sorted matches, and
  returns the changed state.
\<close>

record defaults_rec =
  d_min_r :: "int option"
  d_fuzzy_func :: "string option"

type_synonym 'd callback = "doc \<Rightarrow> 'd \<Rightarrow> nat \<Rightarrow> match_record list \<Rightarrow> 'd"

record 'd token_matcher =
  defaults :: defaults_rec
  priv_callbacks :: "(string \<times> 'd callback option) list"
  priv_patterns :: "(string \<times> pattern list) list"

definition init :: "defaults_rec \<Rightarrow> 'd token_matcher" where
  "init dflts = \<lparr>defaults = dflts, priv_callbacks = [], priv_patterns = []\<rparr>"

definition contains :: "'d token_matcher \<Rightarrow> string \<Rightarrow> bool" where
  "contains m label = dict_has (priv_patterns m) label"

definition len :: "'d token_matcher \<Rightarrow> nat" where
  "len m = length (priv_patterns m)"

definition labels :: "'d token_matcher \<Rightarrow> string list" where
  "labels m = dict_keys (priv_patterns m)"

definition patterns :: "'d token_matcher \<Rightarrow> (string \<times> pattern) list" where
  "patterns m = concat (map (\<lambda>(label, pats). map (\<lambda>p. (label, p)) pats) (priv_patterns m))"

text \<open>
  What \<open>add\<close> may find in its list of patterns: a list of token-specs, or an object
  that is not a list (a tuple of token-specs, a single dictionary).
\<close>

datatype pattern_arg = PList pattern | PTuple pattern | PDict pydict

fun arg_len :: "pattern_arg \<Rightarrow> nat" where
  "arg_len (PList p) = length p"
| "arg_len (PTuple p) = length p"
| "arg_len (PDict d) = length d"

text \<open>\<open>self._patterns[label].append(p)\<close> on the default dictionary.\<close>

definition append_pattern ::
  "string \<Rightarrow> pattern \<Rightarrow> (string \<times> pattern list) list \<Rightarrow> (string \<times> pattern list) list" where
  "append_pattern label p d = dict_set label (dict_get_default d label [] @ [p]) d"

text \<open>
  \<open>add\<close> and \<open>remove\<close> return the exception raised, if any, with the state the
  matcher is left in.
\<close>

fun add_patterns ::
  "string \<Rightarrow> pattern_arg list \<Rightarrow> 'd token_matcher \<Rightarrow> py_error option \<times> 'd token_matcher" where
  "add_patterns label [] m = (None, m)"
| "add_patterns label (p # ps) m =
     (if arg_len p = 0 then (Some ValueError, m)
      else case p of
        PList toks \<Rightarrow>
          add_patterns label ps
            (m\<lparr>priv_patterns := append_pattern label toks (priv_patterns m)\<rparr>)
      | _ \<Rightarrow> (Some TypeError, m))"

definition add ::
  "string \<Rightarrow> pattern_arg list \<Rightarrow> 'd callback option \<Rightarrow> 'd token_matcher
     \<Rightarrow> py_error option \<times> 'd token_matcher" where
  "add label pats on_match m =
     (case add_patterns label pats m of
        (Some err, m') \<Rightarrow> (Some err, m')
      | (None, m') \<Rightarrow>
          (None, m'\<lparr>priv_callbacks := dict_set label on_match (priv_callbacks m')\<rparr>))"

definition remove :: "string \<Rightarrow> 'd token_matcher \<Rightarrow> py_error option \<times> 'd token_matcher" where
  "remove label m =
     (if \<not> dict_has (priv_patterns m) label then (Some ValueError, m)
      else let m' = m\<lparr>priv_patterns := dict_del label (priv_patterns m)\<rparr>
           in if \<not> dict_has (priv_callbacks m') label then (Some ValueError, m')
              else (None, m'\<lparr>priv_callbacks := dict_del label (priv_callbacks m')\<rparr>))"

text \<open>
  \<open>_spacyfy\<close> works on a deep copy of the pattern. \<open>token[0]\<close> of \<open>None\<close>
  raises a type error, \<open>new_pattern[i]\<close> beyond the pattern an index error and
  \<open>del\<close> of an absent key a key error.
\<close>

fun spacyfy_from :: "nat \<Rightarrow> slot list \<Rightarrow> pattern \<Rightarrow> py_error + pattern" where
  "spacyfy_from i [] new_pattern = Inr new_pattern"
| "spacyfy_from i (SNone # rest) new_pattern = Inl TypeError"
| "spacyfy_from i (SPair a t # rest) new_pattern =
     (if a \<noteq> [] then
        (if length new_pattern \<le> i then Inl IndexError
         else if \<not> dict_has (new_pattern ! i) a then Inl KeyError
         else spacyfy_from (Suc i) rest
                (new_pattern[i := dict_set ''TEXT'' (VStr t) (dict_del a (new_pattern ! i))]))
      else spacyfy_from (Suc i) rest new_pattern)"
| "spacyfy_from i (STriple a t r # rest) new_pattern =
     (if a \<noteq> [] then
        (if length new_pattern \<le> i then Inl IndexError
         else if \<not> dict_has (new_pattern ! i) a then Inl KeyError
         else spacyfy_from (Suc i) rest
                (new_pattern[i := dict_set ''TEXT'' (VStr t) (dict_del a (new_pattern ! i))]))
      else spacyfy_from (Suc i) rest new_pattern)"

definition spacyfy :: "slot list \<Rightarrow> pattern \<Rightarrow> py_error + pattern" where
  "spacyfy match_slots pat = spacyfy_from 0 match_slots pat"

text \<open>
  The ratio of a span: the sum over \<open>zip(doc[start:end], spaczz_match)\<close> of
  \<open>token_match[2] / total * len(token)\<close>, rounded. \<open>token_match[2]\<close> is
  evaluated first: it raises a type error on \<open>None\<close> and an index error on a pair.
\<close>

definition span :: "doc \<Rightarrow> nat \<Rightarrow> nat \<Rightarrow> doc" where
  "span d start end' = take (end' - start) (drop start d)"

definition span_chars :: "doc \<Rightarrow> nat" where
  "span_chars toks = sum_list (map (\<lambda>t. length (tok_text t)) toks)"

fun ratio_sum :: "nat \<Rightarrow> (token \<times> slot) list \<Rightarrow> rat \<Rightarrow> py_error + rat" where
  "ratio_sum total_len [] acc = Inr acc"
| "ratio_sum total_len ((t, SNone) # rest) acc = Inl TypeError"
| "ratio_sum total_len ((t, SPair a s) # rest) acc = Inl IndexError"
| "ratio_sum total_len ((t, STriple a s r) # rest) acc =
     (if total_len = 0 then Inl ZeroDivisionError
      else ratio_sum total_len rest
             (acc + of_int r / of_nat total_len * of_nat (length (tok_text t))))"

definition span_ratio :: "doc \<Rightarrow> nat \<Rightarrow> nat \<Rightarrow> slot list \<Rightarrow> py_error + int" where
  "span_ratio d start end' spaczz_match =
     (case ratio_sum (span_chars (span d start end')) (zip (span d start end') spaczz_match) 0 of
        Inl err \<Rightarrow> Inl err
      | Inr s \<Rightarrow> Inr (py_round s))"

text \<open>The four nested loops of \<open>__call__\<close> that fill the set \<open>matches\<close>.\<close>

fun add_spans ::
  "env \<Rightarrow> doc \<Rightarrow> pattern \<Rightarrow> slot list \<Rightarrow> (string \<times> nat \<times> nat) list \<Rightarrow> match_record list
     \<Rightarrow> py_error + match_record list" where
  "add_spans e d pat spaczz_match [] matches = Inr matches"
| "add_spans e d pat spaczz_match ((match_id, start, end') # rest) matches =
     (case span_ratio d start end' spaczz_match of
        Inl err \<Rightarrow> Inl err
      | Inr r \<Rightarrow>
          add_spans e d pat spaczz_match rest
            (List.insert
               \<lparr>m_label = match_id, m_start = int start, m_end = int end', m_ratio = r,
                m_pattern = json_dumps e pat\<rparr> matches))"

fun add_candidates ::
  "env \<Rightarrow> doc \<Rightarrow> string \<Rightarrow> pattern \<Rightarrow> slot list list \<Rightarrow> match_record list
     \<Rightarrow> py_error + match_record list" where
  "add_candidates e d label pat [] matches = Inr matches"
| "add_candidates e d label pat (spaczz_match # rest) matches =
     (case spacyfy spaczz_match pat of
        Inl err \<Rightarrow> Inl err
      | Inr new_pattern \<Rightarrow>
        (case exact_matcher e label new_pattern d of
           Inl err \<Rightarrow> Inl err
         | Inr spacy_matches \<Rightarrow>
           (case add_spans e d pat spaczz_match spacy_matches matches of
              Inl err \<Rightarrow> Inl err
            | Inr matches' \<Rightarrow> add_candidates e d label pat rest matches')))"

fun add_label_patterns ::
  "env \<Rightarrow> defaults_rec \<Rightarrow> doc \<Rightarrow> string \<Rightarrow> pattern list \<Rightarrow> match_record list
     \<Rightarrow> py_error + match_record list" where
  "add_label_patterns e dflts d label [] matches = Inr matches"
| "add_label_patterns e dflts d label (pat # rest) matches =
     (case match e d pat (case d_min_r dflts of None \<Rightarrow> 75 | Some r \<Rightarrow> r)
             (case d_fuzzy_func dflts of None \<Rightarrow> ''simple'' | Some f \<Rightarrow> f) of
        Inl err \<Rightarrow> Inl err
      | Inr spaczz_matches \<Rightarrow>
        (case add_candidates e d label pat spaczz_matches matches of
           Inl err \<Rightarrow> Inl err
         | Inr matches' \<Rightarrow> add_label_patterns e dflts d label rest matches'))"

fun add_rules ::
  "env \<Rightarrow> defaults_rec \<Rightarrow> doc \<Rightarrow> (string \<times> pattern list) list \<Rightarrow> match_record list
     \<Rightarrow> py_error + match_record list" where
  "add_rules e dflts d [] matches = Inr matches"
| "add_rules e dflts d ((label, pats) # rest) matches =
     (case add_label_patterns e dflts d label pats matches of
        Inl err \<Rightarrow> Inl err
      | Inr matches' \<Rightarrow> add_rules e dflts d rest matches')"

text \<open>
  \<open>sorted(matches, key=lambda x: (-x[1], x[2] - x[1], x[3]), reverse=True)\<close>:
  tuples compare lexicographically, and a reversed sort keeps equal keys in their
  original order, which is a stable ascending sort between two reversals.
\<close>

definition sort_key_of :: "match_record \<Rightarrow> int \<times> int \<times> int" where
  "sort_key_of x = (- m_start x, m_end x - m_start x, m_ratio x)"

definition sorted_matches :: "match_record list \<Rightarrow> match_record list" where
  "sorted_matches matches = rev (sort_key sort_key_of (rev matches))"

text \<open>The loop over \<open>enumerate(sorted_matches)\<close> that calls the callbacks.\<close>

fun dispatch_from ::
  "(string \<times> 'd callback option) list \<Rightarrow> doc \<Rightarrow> match_record list \<Rightarrow> nat \<Rightarrow> match_record list
     \<Rightarrow> 'd \<Rightarrow> 'd" where
  "dispatch_from cbs d all_matches i [] st = st"
| "dispatch_from cbs d all_matches i (x # rest) st =
     (case dict_get_default cbs (m_label x) None of
        Some on_match \<Rightarrow> dispatch_from cbs d all_matches (Suc i) rest (on_match d st i all_matches)
      | None \<Rightarrow> dispatch_from cbs d all_matches (Suc i) rest st)"

definition call ::
  "env \<Rightarrow> 'd token_matcher \<Rightarrow> doc \<Rightarrow> 'd \<Rightarrow> py_error + (match_record list \<times> 'd)" where
  "call e m d st =
     (case add_rules e (defaults m) d (priv_patterns m) [] of
        Inl err \<Rightarrow> Inl err
      | Inr matches \<Rightarrow>
          (let sm = sorted_matches (set_order e matches)
           in Inr (sm, dispatch_from (priv_callbacks m) d sm 0 sm st)))"

section \<open>A concrete environment\<close>

text \<open>
  Stand-ins for the collaborators, used to run the model on the documents of the test
  suite: the ratio \<open>simple\<close> is the normalised indel similarity
  \<open>100 * 2 * lcs / (|a| + |b|)\<close>; the regex engine knows the one fuzzy pattern of
  the tests (at most one substitution against \<open>database\<close>), refuses \<open>(\<close> and
  reads any other pattern as a literal prefix; the exact matcher handles patterns of
  literal \<open>TEXT\<close> and \<open>LOWER\<close> constraints, one token per token-spec.
\<close>

fun lcs :: "string \<Rightarrow> string \<Rightarrow> nat" where
  "lcs [] ys = 0"
| "lcs (x # xs) [] = 0"
| "lcs (x # xs) (y # ys) =
     (if x = y then Suc (lcs xs ys) else max (lcs xs (y # ys)) (lcs (x # xs) ys))"

definition indel_ratio :: "string \<Rightarrow> string \<Rightarrow> rat" where
  "indel_ratio a b =
     (if a = [] \<and> b = [] then 100
      else 100 * of_nat (2 * lcs a b) / of_nat (length a + length b))"

definition hamming :: "string \<Rightarrow> string \<Rightarrow> nat" where
  "hamming a b = length (filter (\<lambda>(x, y). x \<noteq> y) (zip a b))"

definition demo_regex :: "string \<Rightarrow> (string \<Rightarrow> bool) option" where
  "demo_regex pat =
     (if pat = ''(database){s<=1}'' then
        Some (\<lambda>t. 8 \<le> length t \<and> hamming (take 8 t) ''database'' \<le> 1)
      else if pat = ''('' then None
      else Some (\<lambda>t. take (length pat) t = pat))"

fun spec_holds :: "token \<Rightarrow> string \<times> pyval \<Rightarrow> bool" where
  "spec_holds t (k, VStr s) =
     (if k = ''TEXT'' then tok_text t = s
      else if k = ''LOWER'' then lower (tok_text t) = s
      else False)"
| "spec_holds t (k, v) = False"

definition window_holds :: "pattern \<Rightarrow> token list \<Rightarrow> bool" where
  "window_holds pat w = list_all (\<lambda>(tok, t). list_all (spec_holds t) tok) (zip pat w)"

definition demo_exact ::
  "string \<Rightarrow> pattern \<Rightarrow> doc \<Rightarrow> py_error + (string \<times> nat \<times> nat) list" where
  "demo_exact label pat d =
     Inr (map (\<lambda>i. (label, i, i + length pat))
            (filter (\<lambda>i. window_holds pat (take (length pat) (drop i d)))
               [0 ..< Suc (length d) - length pat]))"

definition demo_json :: "pattern \<Rightarrow> string" where
  "demo_json pat = concat (map (\<lambda>tok. ''{'' @ concat (map fst tok) @ ''}'') pat)"

definition demo_env :: env where
  "demo_env =
     \<lparr>fuzzy_funcs = (\<lambda>name. if name = ''simple'' then Some indel_ratio else None),
      regex_compile = demo_regex,
      exact_matcher = demo_exact,
      json_dumps = demo_json,
      set_order = (\<lambda>ms. ms)\<rparr>"

definition words :: "string list \<Rightarrow> doc" where
  "words ws = map (\<lambda>w. \<lparr>tok_text = w\<rparr>) ws"

definition no_defaults :: defaults_rec where
  "no_defaults = \<lparr>d_min_r = None, d_fuzzy_func = None\<rparr>"

text \<open>The patterns of the test suite's fixture.\<close>

definition data_pattern_1 :: pattern where
  "data_pattern_1 =
     [[(''TEXT'', VStr ''SQL'')],
      [(''LOWER'', VDict [(''FREGEX'', VStr ''(database){s<=1}'')])],
      [(''LOWER'', VDict [(''FUZZY'', VStr ''access'')])]]"

definition data_pattern_2 :: pattern where
  "data_pattern_2 =
     [[(''TEXT'', VDict [(''FUZZY'', VStr ''Sequel'')])], [(''LOWER'', VStr ''db'')]]"

definition name_pattern :: pattern where
  "name_pattern = [[(''TEXT'', VDict [(''FUZZY'', VStr ''Garfield'')])]]"

definition name_matcher :: "unit token_matcher" where
  "name_matcher = snd (add ''NAME'' [PList name_pattern] None (init no_defaults))"

section \<open>Notions used in the statements\<close>

text \<open>
  A pattern that \<open>add\<close> accepts is a non-empty list; \<open>arg_list\<close> is the list
  \<open>add\<close> stores for it. \<open>extend_label\<close> appends patterns to a label's list.
\<close>

definition valid_arg :: "pattern_arg \<Rightarrow> bool" where
  "valid_arg p = (case p of PList toks \<Rightarrow> toks \<noteq> [] | _ \<Rightarrow> False)"

fun arg_list :: "pattern_arg \<Rightarrow> pattern" where
  "arg_list (PList p) = p"
| "arg_list (PTuple p) = p"
| "arg_list (PDict d) = [d]"

definition extend_label ::
  "string \<Rightarrow> pattern list \<Rightarrow> (string \<times> pattern list) list \<Rightarrow> (string \<times> pattern list) list" where
  "extend_label label ps d = dict_set label (dict_get_default d label [] @ ps) d"




text \<open>
  A constraint object read as a \<open>FUZZY\<close> slot: its non-empty target, the registered
  function named by \<open>FUZZY_FUNC\<close> (or by the caller's default) and the effective
  cutoff, \<open>MIN_R\<close> if present and the caller's \<open>min_r\<close> otherwise. A constraint
  object read as a \<open>FREGEX\<close> slot: \<open>FUZZY\<close> is no string, and the non-empty
  pattern compiles.
\<close>

definition fuzzy_constraint ::
  "env \<Rightarrow> int \<Rightarrow> string \<Rightarrow> pydict \<Rightarrow> (string \<times> (string \<Rightarrow> string \<Rightarrow> rat) \<times> int) option" where
  "fuzzy_constraint e min_r ff d =
     (case dict_get d ''FUZZY'' of
        VStr target \<Rightarrow>
          (if target = [] then None
           else case as_str (dict_get_default d ''FUZZY_FUNC'' (VStr ff)) of
             None \<Rightarrow> None
           | Some fname \<Rightarrow>
             (case fuzzy_funcs e fname of
                None \<Rightarrow> None
              | Some f \<Rightarrow>
                (case as_int (dict_get_default d ''MIN_R'' (VInt min_r)) of
                   None \<Rightarrow> None
                 | Some c \<Rightarrow> Some (target, f, c))))
      | _ \<Rightarrow> None)"

definition regex_constraint :: "env \<Rightarrow> pydict \<Rightarrow> (string \<times> (string \<Rightarrow> bool)) option" where
  "regex_constraint e d =
     (case dict_get d ''FUZZY'' of
        VStr target \<Rightarrow> None
      | _ \<Rightarrow>
        (case dict_get d ''FREGEX'' of
           VStr p \<Rightarrow>
             (if p = [] then None
              else case regex_compile e p of None \<Rightarrow> None | Some rx \<Rightarrow> Some (p, rx))
         | _ \<Rightarrow> None))"



text \<open>
  The results of the windows of a document, left to right, and the index of the first
  window whose result is a given candidate.
\<close>

definition first_index :: "'a \<Rightarrow> 'a list \<Rightarrow> nat" where
  "first_index x xs = length (takeWhile (\<lambda>y. y \<noteq> x) xs)"

definition window_results ::
  "env \<Rightarrow> doc \<Rightarrow> pattern \<Rightarrow> int \<Rightarrow> string \<Rightarrow> (py_error + slot list) list" where
  "window_results e d pat min_r ff =
     map (\<lambda>w. iter_pattern e w pat min_r ff) (n_wise d (length pat))"

definition first_window :: "env \<Rightarrow> doc \<Rightarrow> pattern \<Rightarrow> int \<Rightarrow> string \<Rightarrow> slot list \<Rightarrow> nat" where
  "first_window e d pat min_r ff cand = first_index (Inr cand) (window_results e d pat min_r ff)"

section \<open>Sample documents, patterns and records\<close>

definition grfield_doc :: doc where
  "grfield_doc = words [''name'', ''is'', ''Grfield'']"





definition db_access_doc :: doc where
  "db_access_doc = words [''SQL'', ''databesE'', ''acess'']"


definition repeated_doc :: doc where
  "repeated_doc = words [''acess'', ''Grfield'', ''acces'', ''is'', ''acess'']"

definition access_pattern :: pattern where
  "access_pattern = [[(''TEXT'', VDict [(''FUZZY'', VStr ''access'')])]]"

definition both_keys_dict :: pydict where
  "both_keys_dict = [(''FUZZY'', VStr ''access''), (''FREGEX'', VStr ''('')]"

definition no_string_dict :: pydict where
  "no_string_dict = [(''FUZZY'', VInt 5), (''FREGEX'', VBool True)]"

definition empty_text_spec :: token_spec where
  "empty_text_spec = [(''TEXT'', VDict []), (''LOWER'', VDict [(''FUZZY'', VStr ''sql'')])]"

definition sql_constraint :: pydict where
  "sql_constraint = [(''FUZZY'', VStr ''sql'')]"




section \<open>Properties\<close>

subsection \<open>Dictionaries\<close>

lemma map_of_dict_set: "map_of (dict_set k v d) = (map_of d)(k \<mapsto> v)"
  by (induction d) (auto simp: fun_eq_iff)

lemma dict_keys_dict_set:
  "set (dict_keys (dict_set k v d)) = insert k (set (dict_keys d))"
  by (induction d) (auto simp: dict_keys_def)

lemma dict_keys_dict_set_present:
  "k \<in> set (dict_keys d) \<Longrightarrow> dict_keys (dict_set k v d) = dict_keys d"
  by (induction d) (auto simp: dict_keys_def)

lemma dict_set_twice: "dict_set k v' (dict_set k v d) = dict_set k v' d"
  by (induction d) auto

lemma dict_get_default_dict_set:
  "dict_get_default (dict_set k v d) k' dflt = (if k' = k then v else dict_get_default d k' dflt)"
  by (simp add: dict_get_default_def map_of_dict_set)

lemma dict_has_dict_set: "dict_has (dict_set k v d) k' = (k' = k \<or> dict_has d k')"
  by (auto simp: dict_has_def dict_keys_dict_set)

lemma dict_set_same: "map_of d k = Some v \<Longrightarrow> dict_set k v d = d"
  by (induction d) (auto split: if_splits)

lemma dict_get_dict_set:
  "dict_get (dict_set k v d) k' = (if k' = k then v else dict_get d k')"
  by (simp add: dict_get_def map_of_dict_set)







subsection \<open>Registering rules\<close>

lemma append_pattern_extend:
  "append_pattern label p (extend_label label ps d) = extend_label label (ps @ [p]) d"
  by (simp add: append_pattern_def extend_label_def dict_get_default_dict_set dict_set_twice)

lemma add_patterns_valid_gen:
  "list_all valid_arg pats \<Longrightarrow> priv_patterns m = extend_label label ps d \<Longrightarrow>
   add_patterns label pats m =
     (None, m\<lparr>priv_patterns := extend_label label (ps @ map arg_list pats) d\<rparr>)"
proof (induction pats arbitrary: m ps)
  case Nil
  then show ?case by simp
next
  case (Cons p pats)
  from Cons.prems(1) obtain toks where p: "p = PList toks" "toks \<noteq> []"
    by (auto simp: valid_arg_def split: pattern_arg.splits)
  have rest: "list_all valid_arg pats" using Cons.prems(1) by simp
  let ?m = "m\<lparr>priv_patterns := append_pattern label toks (priv_patterns m)\<rparr>"
  have "priv_patterns ?m = extend_label label (ps @ [toks]) d"
    using Cons.prems(2) by (simp add: append_pattern_extend)
  from Cons.IH[OF rest this] show ?case
    using p by simp
qed

lemma add_patterns_invalid_gen:
  "\<not> list_all valid_arg pats \<Longrightarrow> priv_patterns m = extend_label label ps d \<Longrightarrow>
   \<exists>err. add_patterns label pats m =
     (Some err, m\<lparr>priv_patterns := extend_label label (ps @ map arg_list (takeWhile valid_arg pats)) d\<rparr>)"
proof (induction pats arbitrary: m ps)
  case Nil
  then show ?case by simp
next
  case (Cons p pats)
  show ?case
  proof (cases "valid_arg p")
    case True
    then obtain toks where p: "p = PList toks" "toks \<noteq> []"
      by (auto simp: valid_arg_def split: pattern_arg.splits)
    have rest: "\<not> list_all valid_arg pats" using Cons.prems(1) True by simp
    let ?m = "m\<lparr>priv_patterns := append_pattern label toks (priv_patterns m)\<rparr>"
    have "priv_patterns ?m = extend_label label (ps @ [toks]) d"
      using Cons.prems(2) by (simp add: append_pattern_extend)
    from Cons.IH[OF rest this] show ?thesis
      using p True by simp
  next
    case False
    then show ?thesis using Cons.prems(2)
      by (cases p) (auto simp: valid_arg_def)
  qed
qed

lemma extend_label_nil:
  "dict_has d label \<Longrightarrow> extend_label label [] d = d"
proof -
  assume "dict_has d label"
  then have "map_of d label \<noteq> None"
    by (simp add: dict_has_def dict_keys_def map_of_eq_None_iff)
  then obtain old where old: "map_of d label = Some old" by blast
  then show ?thesis
    by (simp add: extend_label_def dict_get_default_def dict_set_same)
qed

lemma add_patterns_valid:
  assumes "list_all valid_arg pats" and "dict_has (priv_patterns m) label"
  shows "add_patterns label pats m =
     (None, m\<lparr>priv_patterns := extend_label label (map arg_list pats) (priv_patterns m)\<rparr>)"
  using add_patterns_valid_gen[OF assms(1), of m label "[]" "priv_patterns m"]
    extend_label_nil[OF assms(2)] by simp

text \<open>
  C8: calling \<open>add\<close> with a label that is already registered and a list of valid
  patterns raises nothing, appends the patterns, in order and with duplicates, to the
  label's pattern list, and replaces the label's callback by \<open>on_match\<close>; the
  labels and the lists of the other labels stay as they are, and labels that were
  unique keys remain so.
\<close>

theorem add_registered_label_appends:
  assumes "list_all valid_arg pats" and "contains m label"
  shows "add label pats on_match m =
     (None, m\<lparr>priv_patterns :=
                 dict_set label (dict_get_default (priv_patterns m) label [] @ map arg_list pats)
                   (priv_patterns m),
               priv_callbacks := dict_set label on_match (priv_callbacks m)\<rparr>)
     \<and> labels (snd (add label pats on_match m)) = labels m
     \<and> (distinct (labels m) \<longrightarrow> distinct (labels (snd (add label pats on_match m))))
     \<and> dict_get_default (priv_patterns (snd (add label pats on_match m))) label [] =
         dict_get_default (priv_patterns m) label [] @ map arg_list pats
     \<and> dict_get_default (priv_callbacks (snd (add label pats on_match m))) label None = on_match
     \<and> (\<forall>l. l \<noteq> label \<longrightarrow>
           dict_get_default (priv_patterns (snd (add label pats on_match m))) l [] =
           dict_get_default (priv_patterns m) l [])"
proof -
  have has: "dict_has (priv_patterns m) label" using assms(2) by (simp add: contains_def)
  have eq: "add label pats on_match m =
     (None, m\<lparr>priv_patterns := extend_label label (map arg_list pats) (priv_patterns m),
               priv_callbacks := dict_set label on_match (priv_callbacks m)\<rparr>)"
    by (simp add: add_def add_patterns_valid[OF assms(1) has])
  have keys: "dict_keys (extend_label label (map arg_list pats) (priv_patterns m)) =
      dict_keys (priv_patterns m)"
    using has by (simp add: extend_label_def dict_has_def dict_keys_dict_set_present)
  show ?thesis
    using eq keys
    by (simp add: extend_label_def labels_def dict_get_default_dict_set)
qed

theorem add_registered_label_appends_witness:
  "add ''NAME'' [PList data_pattern_2, PList name_pattern] None name_matcher =
     (None, name_matcher\<lparr>priv_patterns := [(''NAME'', [name_pattern, data_pattern_2, name_pattern])],
               priv_callbacks := [(''NAME'', None)]\<rparr>)
   \<and> labels (snd (add ''NAME'' [PList data_pattern_2, PList name_pattern] None name_matcher)) = [''NAME'']"
proof -
  have v: "list_all valid_arg [PList data_pattern_2, PList name_pattern]"
    by (simp add: valid_arg_def data_pattern_2_def name_pattern_def)
  have c: "contains name_matcher ''NAME''"
    by (simp add: contains_def dict_has_def dict_keys_def name_matcher_def add_def
        init_def append_pattern_def dict_get_default_def name_pattern_def)
  have p: "priv_patterns name_matcher = [(''NAME'', [name_pattern])]"
    by (simp add: name_matcher_def add_def init_def append_pattern_def dict_get_default_def
        name_pattern_def)
  have cb: "priv_callbacks name_matcher = [(''NAME'', None)]"
    by (simp add: name_matcher_def add_def init_def append_pattern_def dict_get_default_def
        name_pattern_def)
  have l: "labels name_matcher = [''NAME'']"
    by (simp add: labels_def dict_keys_def p)
  show ?thesis
    using add_registered_label_appends[OF v c, of None] p cb l
    by (simp add: dict_get_default_def labels_def dict_keys_def)
qed

text \<open>
  C9: \<open>add(label, [])\<close> raises nothing and leaves the patterns as they are, yet
  records a callback entry for the label. For a label without patterns the label is
  then absent from the containment test, from \<open>labels\<close> and from \<open>patterns\<close>,
  the count of labels is unchanged, and \<open>remove(label)\<close> raises the value error
  and leaves the callback entry where it is.
\<close>

theorem add_empty_list_orphan_callback:
  "add label [] on_match m =
     (None, m\<lparr>priv_callbacks := dict_set label on_match (priv_callbacks m)\<rparr>)
   \<and> priv_patterns (snd (add label [] on_match m)) = priv_patterns m
   \<and> len (snd (add label [] on_match m)) = len m
   \<and> dict_has (priv_callbacks (snd (add label [] on_match m))) label
   \<and> (\<not> contains m label \<longrightarrow>
        \<not> contains (snd (add label [] on_match m)) label
      \<and> label \<notin> set (labels (snd (add label [] on_match m)))
      \<and> label \<notin> fst ` set (patterns (snd (add label [] on_match m)))
      \<and> remove label (snd (add label [] on_match m)) =
          (Some ValueError, snd (add label [] on_match m))
      \<and> dict_has (priv_callbacks (snd (remove label (snd (add label [] on_match m))))) label)"
proof -
  let ?m = "m\<lparr>priv_callbacks := dict_set label on_match (priv_callbacks m)\<rparr>"
  have eq: "add label [] on_match m = (None, ?m)"
    by (simp add: add_def)
  have cb: "dict_has (priv_callbacks ?m) label"
    by (simp add: dict_has_dict_set)
  have pats: "label \<notin> fst ` set (patterns ?m)" if "\<not> contains m label"
    using that by (force simp: patterns_def contains_def dict_has_def dict_keys_def)
  have rm: "remove label ?m = (Some ValueError, ?m)" if "\<not> contains m label"
    using that by (simp add: remove_def contains_def)
  show ?thesis
    using cb pats rm by (simp add: eq len_def contains_def labels_def dict_has_def)
qed

theorem add_empty_list_orphan_callback_witness:
  "\<not> contains name_matcher ''GHOST''
   \<and> fst (add ''GHOST'' [] None name_matcher) = None
   \<and> len (snd (add ''GHOST'' [] None name_matcher)) = len name_matcher
   \<and> \<not> contains (snd (add ''GHOST'' [] None name_matcher)) ''GHOST''
   \<and> ''GHOST'' \<notin> set (labels (snd (add ''GHOST'' [] None name_matcher)))
   \<and> remove ''GHOST'' (snd (add ''GHOST'' [] None name_matcher)) =
        (Some ValueError, snd (add ''GHOST'' [] None name_matcher))
   \<and> dict_has (priv_callbacks (snd (remove ''GHOST'' (snd (add ''GHOST'' [] None name_matcher)))))
        ''GHOST''"
proof -
  have p: "priv_patterns name_matcher = [(''NAME'', [name_pattern])]"
    by (simp add: name_matcher_def add_def init_def append_pattern_def dict_get_default_def
        name_pattern_def)
  have c: "\<not> contains name_matcher ''GHOST''"
    by (simp add: contains_def dict_has_def dict_keys_def p)
  note th = add_empty_list_orphan_callback[of "''GHOST''" None name_matcher]
  from th have a: "fst (add ''GHOST'' [] None name_matcher) = None" by simp
  from th c show ?thesis using a by blast
qed

text \<open>
  The claim C3 (an \<open>add\<close> that raises leaves the rule set as it was) fails: a
  valid pattern before an empty one has already been appended when the error is
  raised.
\<close>

theorem add_not_atomic_counterexample:
  "fst (add ''TEST'' [PList [[(''TEXT'', VStr ''test'')]], PList []] None
          (init no_defaults :: unit token_matcher)) = Some ValueError
   \<and> priv_patterns (snd (add ''TEST'' [PList [[(''TEXT'', VStr ''test'')]], PList []] None
          (init no_defaults :: unit token_matcher))) = [(''TEST'', [[[(''TEXT'', VStr ''test'')]]])]
   \<and> priv_patterns (init no_defaults :: unit token_matcher) = []
   \<and> snd (add ''TEST'' [PList [[(''TEXT'', VStr ''test'')]], PList []] None
          (init no_defaults :: unit token_matcher)) \<noteq> init no_defaults"
  by (simp add: add_def init_def append_pattern_def dict_get_default_def)

text \<open>
  C3, amended: when \<open>add\<close> raises, some pattern of the call is not a non-empty
  list, the callbacks and the defaults are as before, and the label's pattern list has
  gained exactly the valid patterns that precede the first invalid one; the matcher is
  unchanged when the first pattern of the call is the invalid one.
\<close>

theorem add_raising_keeps_valid_prefix:
  assumes "fst (add label pats on_match m) \<noteq> None"
  shows "\<not> list_all valid_arg pats
     \<and> snd (add label pats on_match m) =
         (if takeWhile valid_arg pats = [] then m
          else m\<lparr>priv_patterns :=
                   dict_set label
                     (dict_get_default (priv_patterns m) label []
                        @ map arg_list (takeWhile valid_arg pats))
                     (priv_patterns m)\<rparr>)
     \<and> priv_callbacks (snd (add label pats on_match m)) = priv_callbacks m
     \<and> defaults (snd (add label pats on_match m)) = defaults m"
proof -
  have inv: "\<not> list_all valid_arg pats"
  proof
    assume v: "list_all valid_arg pats"
    show False
    proof (cases pats)
      case Nil
      then show ?thesis using assms by (simp add: add_def)
    next
      case (Cons p ps)
      then obtain toks where p: "p = PList toks" "toks \<noteq> []"
        using v by (auto simp: valid_arg_def split: pattern_arg.splits)
      let ?m = "m\<lparr>priv_patterns := append_pattern label toks (priv_patterns m)\<rparr>"
      have "priv_patterns ?m = extend_label label ([] @ [toks]) (priv_patterns m)"
        by (simp add: append_pattern_def extend_label_def)
      from add_patterns_valid_gen[OF _ this, of ps] v Cons
      have "fst (add_patterns label ps ?m) = None" by simp
      then show ?thesis using assms Cons p
        by (simp add: add_def split: prod.splits option.splits)
    qed
  qed
  show ?thesis
  proof (cases "takeWhile valid_arg pats")
    case Nil
    then obtain p ps where pats: "pats = p # ps" "\<not> valid_arg p"
      using inv by (cases pats) (auto split: if_splits)
    then have "add_patterns label pats m = (Some (if arg_len p = 0 then ValueError else TypeError), m)"
      by (cases p) (auto simp: valid_arg_def)
    then show ?thesis using inv Nil by (simp add: add_def)
  next
    case (Cons q qs)
    then obtain p ps where pats: "pats = p # ps" "valid_arg p"
      by (cases pats) (auto split: if_splits)
    then obtain toks where p: "p = PList toks" "toks \<noteq> []"
      by (auto simp: valid_arg_def split: pattern_arg.splits)
    let ?m = "m\<lparr>priv_patterns := append_pattern label toks (priv_patterns m)\<rparr>"
    have start: "priv_patterns ?m = extend_label label ([] @ [toks]) (priv_patterns m)"
      by (simp add: append_pattern_def extend_label_def)
    have "\<not> list_all valid_arg ps" using inv pats by simp
    from add_patterns_invalid_gen[OF this start]
    obtain err where "add_patterns label ps ?m =
       (Some err, ?m\<lparr>priv_patterns := extend_label label
           (([] @ [toks]) @ map arg_list (takeWhile valid_arg ps)) (priv_patterns m)\<rparr>)"
      by blast
    then show ?thesis using inv pats p
      by (simp add: add_def extend_label_def)
  qed
qed

theorem add_raising_keeps_valid_prefix_witness:
  "fst (add ''TEST'' [PList name_pattern, PDict [(''TEXT'', VStr ''error'')], PList data_pattern_2]
          None name_matcher) = Some TypeError
   \<and> priv_patterns (snd (add ''TEST''
          [PList name_pattern, PDict [(''TEXT'', VStr ''error'')], PList data_pattern_2]
          None name_matcher)) = [(''NAME'', [name_pattern]), (''TEST'', [name_pattern])]
   \<and> priv_callbacks (snd (add ''TEST''
          [PList name_pattern, PDict [(''TEXT'', VStr ''error'')], PList data_pattern_2]
          None name_matcher)) = [(''NAME'', None)]
   \<and> snd (add ''TEST'' [PList []] None name_matcher) = name_matcher"
proof -
  have p: "priv_patterns name_matcher = [(''NAME'', [name_pattern])]"
    by (simp add: name_matcher_def add_def init_def append_pattern_def dict_get_default_def
        name_pattern_def)
  have cb: "priv_callbacks name_matcher = [(''NAME'', None)]"
    by (simp add: name_matcher_def add_def init_def append_pattern_def dict_get_default_def
        name_pattern_def)
  have e1: "fst (add ''TEST''
          [PList name_pattern, PDict [(''TEXT'', VStr ''error'')], PList data_pattern_2]
          None name_matcher) = Some TypeError"
    by (simp add: add_def name_pattern_def)
  have e2: "fst (add ''TEST'' [PList []] None name_matcher) = Some ValueError"
    by (simp add: add_def)
  have t1: "takeWhile valid_arg
      [PList name_pattern, PDict [(''TEXT'', VStr ''error'')], PList data_pattern_2]
      = [PList name_pattern]"
    by (simp add: valid_arg_def name_pattern_def)
  have t2: "takeWhile valid_arg [PList []] = []"
    by (simp add: valid_arg_def)
  show ?thesis
    using add_raising_keeps_valid_prefix[of "''TEST''"
        "[PList name_pattern, PDict [(''TEXT'', VStr ''error'')], PList data_pattern_2]"
        None name_matcher]
      add_raising_keeps_valid_prefix[of "''TEST''" "[PList []]" None name_matcher]
      e1 e2 t1 t2 p cb
    by (simp add: dict_get_default_def)
qed

subsection \<open>Slot results and candidates of the searcher\<close>






lemma match_windows_char:
  "match_windows e ws pat min_r ff acc = Inr ms \<longleftrightarrow>
     (\<forall>w \<in> set ws. \<exists>r. iter_pattern e w pat min_r ff = Inr r) \<and>
     ms = acc @ filter (\<lambda>r. r \<noteq> []) (map (\<lambda>w. projr (iter_pattern e w pat min_r ff)) ws)"
  by (induction ws arbitrary: acc) (auto split: sum.splits)

lemma first_seen_snoc:
  "first_seen (xs @ [x]) = (if x \<in> set xs then first_seen xs else first_seen xs @ [x])"
proof -
  have "filter (\<lambda>(i, m). m \<notin> set (take i (xs @ [x]))) (enumerate 0 xs) =
        filter (\<lambda>(i, m). m \<notin> set (take i xs)) (enumerate 0 xs)"
    by (rule filter_cong) (auto simp: in_set_enumerate_eq)
  then show ?thesis
    by (simp add: first_seen_def enumerate_append_eq)
qed

lemma first_seen_Nil: "first_seen [] = []"
  by (simp add: first_seen_def)

lemma set_first_seen: "set (first_seen xs) = set xs"
  by (induction xs rule: rev_induct) (auto simp: first_seen_snoc first_seen_Nil)

lemma distinct_first_seen: "distinct (first_seen xs)"
  by (induction xs rule: rev_induct) (auto simp: first_seen_snoc first_seen_Nil set_first_seen)

lemma match_char:
  "match e d pat min_r ff = Inr cs \<longleftrightarrow>
     pat \<noteq> [] \<and>
     (\<forall>w \<in> set (n_wise d (length pat)). \<exists>r. iter_pattern e w pat min_r ff = Inr r) \<and>
     cs = first_seen (filter (\<lambda>r. r \<noteq> [])
            (map (\<lambda>w. projr (iter_pattern e w pat min_r ff)) (n_wise d (length pat))))"
proof (cases "match_windows e (n_wise d (length pat)) pat min_r ff []")
  case (Inl err)
  then show ?thesis
    using match_windows_char[of e "n_wise d (length pat)" pat min_r ff "[]"]
    by (auto simp: match_def)
next
  case (Inr ms)
  then show ?thesis
    using match_windows_char[of e "n_wise d (length pat)" pat min_r ff "[]" ms]
    by (auto simp: match_def first_seen_Nil)
qed



text \<open>
  The first scenario of the spec: the fixture's first pattern on the tokens
  \<open>SQL databesE acess\<close> gives exactly one candidate, with \<open>None\<close> for the
  literal slot.
\<close>

lemma scenario_one_candidate:
  "match demo_env db_access_doc data_pattern_1 75 ''simple'' =
     Inr [[SNone, SPair ''LOWER'' ''databesE'', SPair ''LOWER'' ''acess'']]"
  by code_simp

subsection \<open>The type of a constraint object\<close>

text \<open>
  C10: a constraint object whose \<open>FUZZY\<close> key maps to a string is of type
  \<open>FUZZY\<close>, and the outcome of its slot is the same whatever \<open>FREGEX\<close> maps
  to; a constraint object in which neither \<open>FUZZY\<close> nor \<open>FREGEX\<close> maps to a
  string gives the slot result \<open>None\<close>, without an error and without a comparison.
\<close>

theorem fuzzy_key_governs_slot:
  "(dict_get d ''FUZZY'' = VStr s \<longrightarrow>
      parse_type d = (s, ''FUZZY'')
    \<and> (\<forall>v. iter_dict e seq min_r ff i (dict_set ''FREGEX'' v d) a flag =
            iter_dict e seq min_r ff i d a flag))
   \<and> ((\<forall>s. dict_get d ''FUZZY'' \<noteq> VStr s) \<and> (\<forall>s. dict_get d ''FREGEX'' \<noteq> VStr s) \<longrightarrow>
      parse_type d = ([], [])
    \<and> iter_dict e seq min_r ff i d a flag = Inr (Recorded SNone)
    \<and> (\<forall>tok. fst (parse_case tok) = VDict d \<longrightarrow>
          iter_slot e seq min_r ff i tok = Inr (Recorded SNone)))"
proof -
  have one: "parse_type d = (s, ''FUZZY'')" if "dict_get d ''FUZZY'' = VStr s"
    using that by (simp add: parse_type_def)
  have two: "iter_dict e seq min_r ff i (dict_set ''FREGEX'' v d) a flag =
            iter_dict e seq min_r ff i d a flag" if "dict_get d ''FUZZY'' = VStr s" for v
  proof -
    have pt: "parse_type (dict_set ''FREGEX'' v d) = parse_type d"
      using that by (simp add: parse_type_def dict_get_dict_set)
    have fn: "dict_get_default (dict_set ''FREGEX'' v d) ''FUZZY_FUNC'' (VStr ff) =
        dict_get_default d ''FUZZY_FUNC'' (VStr ff)"
      by (simp add: dict_get_default_dict_set)
    have mr: "dict_get_default (dict_set ''FREGEX'' v d) ''MIN_R'' (VInt min_r) =
        dict_get_default d ''MIN_R'' (VInt min_r)"
      by (simp add: dict_get_default_dict_set)
    show ?thesis
      unfolding iter_dict_def pt fn mr by (rule refl)
  qed
  have three: "parse_type d = ([], [])"
    if "\<forall>s. dict_get d ''FUZZY'' \<noteq> VStr s" "\<forall>s. dict_get d ''FREGEX'' \<noteq> VStr s"
    using that by (auto simp: parse_type_def split: pyval.splits)
  have four: "iter_dict e seq min_r ff i d a flag = Inr (Recorded SNone)"
    if "parse_type d = ([], [])" for a flag
    using that by (simp add: iter_dict_def)
  have five: "iter_slot e seq min_r ff i tok = Inr (Recorded SNone)"
    if "parse_type d = ([], [])" "fst (parse_case tok) = VDict d" for tok
    using that four by (cases "parse_case tok") (simp add: iter_slot_def)
  show ?thesis using one two three four five by blast
qed

theorem fuzzy_key_governs_slot_witness:
  "dict_get both_keys_dict ''FUZZY'' = VStr ''access''
   \<and> parse_type both_keys_dict = (''access'', ''FUZZY'')
   \<and> iter_dict demo_env db_access_doc 75 ''simple'' 2
        (dict_set ''FREGEX'' (VStr ''sql'') both_keys_dict) ''LOWER'' True =
      iter_dict demo_env db_access_doc 75 ''simple'' 2 both_keys_dict ''LOWER'' True
   \<and> iter_dict demo_env db_access_doc 75 ''simple'' 2 both_keys_dict ''LOWER'' True =
      Inr (Recorded (SPair ''LOWER'' ''acess''))
   \<and> iter_dict demo_env db_access_doc 75 ''simple'' 2 no_string_dict ''LOWER'' True =
      Inr (Recorded SNone)"
proof -
  have a: "dict_get both_keys_dict ''FUZZY'' = VStr ''access''"
    by (simp add: both_keys_dict_def dict_get_def)
  have b: "(\<forall>s. dict_get no_string_dict ''FUZZY'' \<noteq> VStr s)
      \<and> (\<forall>s. dict_get no_string_dict ''FREGEX'' \<noteq> VStr s)"
    by (simp add: no_string_dict_def dict_get_def)
  have r: "iter_dict demo_env db_access_doc 75 ''simple'' 2 both_keys_dict ''LOWER'' True =
      Inr (Recorded (SPair ''LOWER'' ''acess''))"
    by code_simp
  from fuzzy_key_governs_slot[of both_keys_dict "''access''" demo_env db_access_doc 75
      "''simple''" 2 "''LOWER''" True] a
  have one: "parse_type both_keys_dict = (''access'', ''FUZZY'')
     \<and> iter_dict demo_env db_access_doc 75 ''simple'' 2
        (dict_set ''FREGEX'' (VStr ''sql'') both_keys_dict) ''LOWER'' True =
      iter_dict demo_env db_access_doc 75 ''simple'' 2 both_keys_dict ''LOWER'' True"
    by blast
  from fuzzy_key_governs_slot[of no_string_dict _ demo_env db_access_doc 75
      "''simple''" 2 "''LOWER''" True] b
  have two: "iter_dict demo_env db_access_doc 75 ''simple'' 2 no_string_dict ''LOWER'' True =
      Inr (Recorded SNone)"
    by blast
  show ?thesis using a r one two by blast
qed

subsection \<open>Case sensitivity\<close>

text \<open>
  The claim C6 (a \<open>TEXT\<close> attribute that is present governs) fails for a
  token-spec whose \<open>TEXT\<close> value is empty: \<open>LOWER\<close> governs, and the token
  \<open>SQL\<close> is accepted against the target \<open>sql\<close> after lower-casing.
\<close>

theorem text_present_not_governing_counterexample:
  "dict_has empty_text_spec ''TEXT''
   \<and> parse_case empty_text_spec = (VDict [(''FUZZY'', VStr ''sql'')], ''LOWER'', True)
   \<and> parse_case empty_text_spec \<noteq> (dict_get empty_text_spec ''TEXT'', ''TEXT'', False)
   \<and> iter_slot demo_env (words [''SQL'']) 75 ''simple'' 0 empty_text_spec =
       Inr (Recorded (SPair ''LOWER'' ''SQL''))"
  by code_simp

lemma iter_dict_fuzzy:
  assumes "fuzzy_constraint e min_r ff d = Some (target, f, c)" and "i < length seq"
  shows "iter_dict e seq min_r ff i d a flag =
     Inr (if c \<le> py_round (registry_call f
                (if flag then lower (tok_text (seq ! i)) else tok_text (seq ! i))
                (if flag then lower target else target) c)
          then Recorded (SPair a (tok_text (seq ! i))) else Rejected)"
proof -
  from assms(1) obtain fname where
    t: "dict_get d ''FUZZY'' = VStr target" "target \<noteq> []" and
    fn: "as_str (dict_get_default d ''FUZZY_FUNC'' (VStr ff)) = Some fname" and
    f: "fuzzy_funcs e fname = Some f" and
    c: "as_int (dict_get_default d ''MIN_R'' (VInt min_r)) = Some c"
    by (auto simp: fuzzy_constraint_def split: pyval.splits if_splits option.splits)
  have pt: "parse_type d = (target, ''FUZZY'')"
    using t by (simp add: parse_type_def)
  show ?thesis
    using assms(2) t fn f c
    by (simp add: iter_dict_def pt fuzzy_compare_def Let_def)
qed

lemma iter_dict_regex:
  assumes "regex_constraint e d = Some (p, rx)" and "i < length seq"
  shows "iter_dict e seq min_r ff i d a flag =
     Inr (if rx (if flag then lower (tok_text (seq ! i)) else tok_text (seq ! i))
          then Recorded (SPair a (tok_text (seq ! i))) else Rejected)"
proof -
  from assms(1) have
    nf: "\<forall>s. dict_get d ''FUZZY'' \<noteq> VStr s" and
    p: "dict_get d ''FREGEX'' = VStr p" "p \<noteq> []" and
    rx: "regex_compile e p = Some rx"
    by (auto simp: regex_constraint_def split: pyval.splits if_splits option.splits)
  have pt: "parse_type d = (p, ''FREGEX'')"
    using nf p by (auto simp: parse_type_def split: pyval.splits)
  show ?thesis
    using assms(2) p rx
    by (simp add: iter_dict_def pt regex_compare_def Let_def)
qed

text \<open>
  C6, amended: a \<open>TEXT\<close> value that is true in a condition (not empty) governs
  and the comparison is case-sensitive: the fuzzy function and the regex see the token
  text and the target as they are. Otherwise (\<open>TEXT\<close> absent or empty) \<open>LOWER\<close>
  governs and the token text is always lower-cased, together with the target of a
  fuzzy comparison; the pattern of a regex is left as it is. The slot records the
  governing attribute with the token's text as written.
\<close>

theorem governing_attribute_decides_case:
  assumes "i < length seq"
  shows
  "(truthy (dict_get tok ''TEXT'') \<longrightarrow>
      parse_case tok = (dict_get tok ''TEXT'', ''TEXT'', False))
   \<and> (\<not> truthy (dict_get tok ''TEXT'') \<longrightarrow>
      parse_case tok = (dict_get tok ''LOWER'', ''LOWER'', True))
   \<and> (fuzzy_constraint e min_r ff d = Some (target, f, c) \<longrightarrow>
        (dict_get tok ''TEXT'' = VDict d \<longrightarrow>
           iter_slot e seq min_r ff i tok =
             Inr (if c \<le> py_round (registry_call f (tok_text (seq ! i)) target c)
                  then Recorded (SPair ''TEXT'' (tok_text (seq ! i))) else Rejected))
      \<and> (\<not> truthy (dict_get tok ''TEXT'') \<and> dict_get tok ''LOWER'' = VDict d \<longrightarrow>
           iter_slot e seq min_r ff i tok =
             Inr (if c \<le> py_round (registry_call f (lower (tok_text (seq ! i))) (lower target) c)
                  then Recorded (SPair ''LOWER'' (tok_text (seq ! i))) else Rejected)))
   \<and> (regex_constraint e d = Some (p, rx) \<longrightarrow>
        (dict_get tok ''TEXT'' = VDict d \<longrightarrow>
           iter_slot e seq min_r ff i tok =
             Inr (if rx (tok_text (seq ! i))
                  then Recorded (SPair ''TEXT'' (tok_text (seq ! i))) else Rejected))
      \<and> (\<not> truthy (dict_get tok ''TEXT'') \<and> dict_get tok ''LOWER'' = VDict d \<longrightarrow>
           iter_slot e seq min_r ff i tok =
             Inr (if rx (lower (tok_text (seq ! i)))
                  then Recorded (SPair ''LOWER'' (tok_text (seq ! i))) else Rejected)))"
proof -
  have pc1: "parse_case tok = (dict_get tok ''TEXT'', ''TEXT'', False)"
    if "truthy (dict_get tok ''TEXT'')"
    using that by (simp add: parse_case_def)
  have pc2: "parse_case tok = (dict_get tok ''LOWER'', ''LOWER'', True)"
    if "\<not> truthy (dict_get tok ''TEXT'')"
    using that by (simp add: parse_case_def)
  have ne: "d \<noteq> []" if "fuzzy_constraint e min_r ff d = Some (target, f, c)
      \<or> regex_constraint e d = Some (p, rx)"
    using that
    by (auto simp: fuzzy_constraint_def regex_constraint_def dict_get_def)
  have s1: "iter_slot e seq min_r ff i tok = iter_dict e seq min_r ff i d ''TEXT'' False"
    if "d \<noteq> []" "dict_get tok ''TEXT'' = VDict d"
    using that by (simp add: iter_slot_def parse_case_def)
  have s2: "iter_slot e seq min_r ff i tok = iter_dict e seq min_r ff i d ''LOWER'' True"
    if "\<not> truthy (dict_get tok ''TEXT'')" "dict_get tok ''LOWER'' = VDict d"
    using that by (simp add: iter_slot_def parse_case_def)
  show ?thesis
    using pc1 pc2 ne s1 s2 iter_dict_fuzzy[OF _ assms, of e min_r ff d target f c]
      iter_dict_regex[OF _ assms, of e d p rx min_r ff]
    by simp
qed

theorem governing_attribute_decides_case_witness:
  "0 < length (words [''SQL''])
   \<and> fuzzy_constraint demo_env 75 ''simple'' sql_constraint = Some (''sql'', indel_ratio, 75)
   \<and> dict_get [(''TEXT'', VDict sql_constraint)] ''TEXT'' = VDict sql_constraint
   \<and> iter_slot demo_env (words [''SQL'']) 75 ''simple'' 0 [(''TEXT'', VDict sql_constraint)] =
       Inr Rejected
   \<and> \<not> truthy (dict_get [(''LOWER'', VDict sql_constraint)] ''TEXT'')
   \<and> dict_get [(''LOWER'', VDict sql_constraint)] ''LOWER'' = VDict sql_constraint
   \<and> iter_slot demo_env (words [''SQL'']) 75 ''simple'' 0 [(''LOWER'', VDict sql_constraint)] =
       Inr (Recorded (SPair ''LOWER'' ''SQL''))"
proof -
  have len: "0 < length (words [''SQL''])" by (simp add: words_def)
  have fc: "fuzzy_constraint demo_env 75 ''simple'' sql_constraint = Some (''sql'', indel_ratio, 75)"
    by (simp add: fuzzy_constraint_def sql_constraint_def dict_get_def dict_get_default_def
        demo_env_def)
  have t1: "dict_get [(''TEXT'', VDict sql_constraint)] ''TEXT'' = VDict sql_constraint"
    by (simp add: dict_get_def)
  have t2: "\<not> truthy (dict_get [(''LOWER'', VDict sql_constraint)] ''TEXT'')"
    by (simp add: dict_get_def)
  have t3: "dict_get [(''LOWER'', VDict sql_constraint)] ''LOWER'' = VDict sql_constraint"
    by (simp add: dict_get_def)
  have tx: "tok_text (words [''SQL''] ! 0) = ''SQL''" by (simp add: words_def)
  have r1: "py_round (registry_call indel_ratio ''SQL'' ''sql'' 75) = 0" by code_simp
  have r2: "py_round (registry_call indel_ratio (lower ''SQL'') (lower ''sql'') 75) = 100"
    by code_simp
  from governing_attribute_decides_case[OF len, of "[(''TEXT'', VDict sql_constraint)]"
      demo_env 75 "''simple''" sql_constraint "''sql''" indel_ratio 75] fc t1
  have a: "iter_slot demo_env (words [''SQL'']) 75 ''simple'' 0 [(''TEXT'', VDict sql_constraint)] =
       Inr Rejected"
    by (simp add: tx r1)
  from governing_attribute_decides_case[OF len, of "[(''LOWER'', VDict sql_constraint)]"
      demo_env 75 "''simple''" sql_constraint "''sql''" indel_ratio 75] fc t2 t3
  have b: "iter_slot demo_env (words [''SQL'']) 75 ''simple'' 0 [(''LOWER'', VDict sql_constraint)] =
       Inr (Recorded (SPair ''LOWER'' ''SQL''))"
    by (simp add: tx r2)
  show ?thesis using len fc t1 t2 t3 a b by blast
qed

subsection \<open>The cutoff of a fuzzy slot\<close>


















subsection \<open>Candidates in first-seen order\<close>

lemma first_index_Cons:
  "first_index a (y # ys) = (if y = a then 0 else Suc (first_index a ys))"
  by (simp add: first_index_def)

lemma first_index_Nil: "first_index a [] = 0"
  by (simp add: first_index_def)

lemma first_index_less: "x \<in> set xs \<Longrightarrow> first_index x xs < length xs"
  by (induction xs) (auto simp: first_index_Cons)

lemma first_index_nth: "x \<in> set xs \<Longrightarrow> xs ! first_index x xs = x"
  by (induction xs) (auto simp: first_index_Cons)

lemma first_index_append_in:
  "a \<in> set xs \<Longrightarrow> first_index a (xs @ ys) = first_index a xs"
  by (induction xs) (auto simp: first_index_Cons)

lemma first_index_append_notin:
  "a \<notin> set xs \<Longrightarrow> first_index a (xs @ ys) = length xs + first_index a ys"
  by (induction xs) (auto simp: first_index_Cons)

lemma first_seen_order:
  "sorted_wrt (\<lambda>a b. first_index a xs < first_index b xs) (first_seen xs)"
proof (induction xs rule: rev_induct)
  case Nil
  then show ?case by (simp add: first_seen_Nil)
next
  case (snoc x xs)
  have keep: "sorted_wrt (\<lambda>a b. first_index a (xs @ [x]) < first_index b (xs @ [x])) (first_seen xs)"
    by (rule sorted_wrt_mono_rel[OF _ snoc.IH])
      (simp add: set_first_seen first_index_append_in)
  show ?case
  proof (cases "x \<in> set xs")
    case True
    then show ?thesis using keep by (simp add: first_seen_snoc)
  next
    case False
    have "first_index a (xs @ [x]) < first_index x (xs @ [x])" if "a \<in> set xs" for a
      using that False first_index_less[of a xs]
      by (simp add: first_index_append_in first_index_append_notin first_index_Cons)
    then show ?thesis
      using keep False by (simp add: first_seen_snoc sorted_wrt_append set_first_seen)
  qed
qed

lemma first_index_filter:
  "P a \<Longrightarrow> P b \<Longrightarrow> first_index a (filter P xs) < first_index b (filter P xs) \<Longrightarrow>
   first_index a xs < first_index b xs"
  by (induction xs) (auto simp: first_index_Cons split: if_splits)

lemma first_index_projr:
  "\<forall>r \<in> set rs. \<exists>x. r = Inr x \<Longrightarrow>
   first_index c (map projr rs) = first_index (Inr c) rs"
  by (induction rs) (auto simp: first_index_Cons first_index_Nil)

text \<open>
  C7: the candidates that \<open>match\<close> returns are pairwise different, they are
  exactly the non-empty results of the windows, and they stand in the order of the
  first window, counted from the left, that produced each of them.
\<close>

theorem match_first_seen_order:
  assumes "match e d pat min_r ff = Inr cs"
  shows "distinct cs
     \<and> set cs = {c. c \<noteq> [] \<and> Inr c \<in> set (window_results e d pat min_r ff)}
     \<and> sorted_wrt (\<lambda>a b. first_window e d pat min_r ff a < first_window e d pat min_r ff b) cs
     \<and> (\<forall>c \<in> set cs.
           first_window e d pat min_r ff c < length (window_results e d pat min_r ff)
         \<and> window_results e d pat min_r ff ! first_window e d pat min_r ff c = Inr c)"
proof -
  let ?rs = "window_results e d pat min_r ff"
  let ?ms = "filter (\<lambda>r. r \<noteq> []) (map projr ?rs)"
  from assms have allr: "\<forall>r \<in> set ?rs. \<exists>x. r = Inr x"
    and cs: "cs = first_seen ?ms"
    by (auto simp: match_char window_results_def comp_def)
  have dist: "distinct cs" using cs by (simp add: distinct_first_seen)
  have mem: "set cs = {c. c \<noteq> [] \<and> Inr c \<in> set ?rs}"
  proof -
    have "Inr c \<in> set ?rs \<longleftrightarrow> c \<in> projr ` set ?rs" for c
    proof
      assume "Inr c \<in> set ?rs"
      then show "c \<in> projr ` set ?rs" by force
    next
      assume "c \<in> projr ` set ?rs"
      then obtain r where "r \<in> set ?rs" "c = projr r" by blast
      with allr show "Inr c \<in> set ?rs" by force
    qed
    then show ?thesis using cs by (auto simp: set_first_seen)
  qed
  have "sorted_wrt (\<lambda>a b. first_index a ?ms < first_index b ?ms) cs"
    using cs first_seen_order[of ?ms] by simp
  then have "sorted_wrt (\<lambda>a b. first_index a (map projr ?rs) < first_index b (map projr ?rs)) cs"
  proof (rule sorted_wrt_mono_rel[rotated])
    fix a b assume "a \<in> set cs" "b \<in> set cs" "first_index a ?ms < first_index b ?ms"
    then show "first_index a (map projr ?rs) < first_index b (map projr ?rs)"
      using mem first_index_filter[of "\<lambda>r. r \<noteq> []" a b "map projr ?rs"] by simp
  qed
  then have ord: "sorted_wrt (\<lambda>a b. first_window e d pat min_r ff a < first_window e d pat min_r ff b) cs"
    by (simp add: first_index_projr[OF allr] first_window_def)
  have pos: "first_window e d pat min_r ff c < length ?rs
         \<and> ?rs ! first_window e d pat min_r ff c = Inr c" if "c \<in> set cs" for c
    using that mem
    by (simp add: first_window_def first_index_less first_index_nth)
  show ?thesis using dist mem ord pos by blast
qed

lemma repeated_match:
  "match demo_env repeated_doc access_pattern 75 ''simple'' =
     Inr [[SPair ''TEXT'' ''acess''], [SPair ''TEXT'' ''acces'']]"
  by code_simp

lemma repeated_windows:
  "window_results demo_env repeated_doc access_pattern 75 ''simple'' =
     [Inr [SPair ''TEXT'' ''acess''], Inr [], Inr [SPair ''TEXT'' ''acces''], Inr [],
      Inr [SPair ''TEXT'' ''acess'']]"
  by code_simp

theorem match_first_seen_order_witness:
  "match demo_env repeated_doc access_pattern 75 ''simple'' =
     Inr [[SPair ''TEXT'' ''acess''], [SPair ''TEXT'' ''acces'']]
   \<and> window_results demo_env repeated_doc access_pattern 75 ''simple'' =
     [Inr [SPair ''TEXT'' ''acess''], Inr [], Inr [SPair ''TEXT'' ''acces''], Inr [],
      Inr [SPair ''TEXT'' ''acess'']]
   \<and> distinct [[SPair ''TEXT'' ''acess''], [SPair ''TEXT'' ''acces'']]
   \<and> first_window demo_env repeated_doc access_pattern 75 ''simple'' [SPair ''TEXT'' ''acess''] = 0
   \<and> first_window demo_env repeated_doc access_pattern 75 ''simple'' [SPair ''TEXT'' ''acces''] = 2
   \<and> sorted_wrt (\<lambda>a b. first_window demo_env repeated_doc access_pattern 75 ''simple'' a
                      < first_window demo_env repeated_doc access_pattern 75 ''simple'' b)
        [[SPair ''TEXT'' ''acess''], [SPair ''TEXT'' ''acces'']]"
proof -
  have f0: "first_window demo_env repeated_doc access_pattern 75 ''simple'' [SPair ''TEXT'' ''acess''] = 0"
    by (simp add: first_window_def repeated_windows first_index_def)
  have f2: "first_window demo_env repeated_doc access_pattern 75 ''simple'' [SPair ''TEXT'' ''acces''] = 2"
    by (simp add: first_window_def repeated_windows first_index_def)
  from match_first_seen_order[OF repeated_match]
  have "distinct [[SPair ''TEXT'' ''acess''], [SPair ''TEXT'' ''acces'']]
    \<and> sorted_wrt (\<lambda>a b. first_window demo_env repeated_doc access_pattern 75 ''simple'' a
                      < first_window demo_env repeated_doc access_pattern 75 ''simple'' b)
        [[SPair ''TEXT'' ''acess''], [SPair ''TEXT'' ''acces'']]"
    by blast
  then show ?thesis using repeated_match repeated_windows f0 f2 by blast
qed

subsection \<open>Concretising a candidate\<close>






subsection \<open>The ratio of a span\<close>

text \<open>
  C1 on the document \<open>name is Grfield\<close> with the rule of the test suite,
  \<open>NAME: [{"TEXT": {"FUZZY": "Garfield"}}]\<close>: the searcher accepts \<open>Grfield\<close>
  and records the pair \<open>(TEXT, Grfield)\<close>, the concretised pattern matches the span
  \<open>[2, 3)\<close>, and the ratio of the span reads \<open>token_match[2]\<close> of that pair:
  the call raises an index error where C1 expects a record with the measured ratio.
\<close>

theorem call_raises_on_fuzzy_match:
  "match demo_env grfield_doc name_pattern 75 ''simple'' = Inr [[SPair ''TEXT'' ''Grfield'']]
   \<and> spacyfy [SPair ''TEXT'' ''Grfield''] name_pattern = Inr [[(''TEXT'', VStr ''Grfield'')]]
   \<and> exact_matcher demo_env ''NAME'' [[(''TEXT'', VStr ''Grfield'')]] grfield_doc
        = Inr [(''NAME'', 2, 3)]
   \<and> span_ratio grfield_doc 2 3 [SPair ''TEXT'' ''Grfield''] = Inl IndexError
   \<and> call demo_env name_matcher grfield_doc () = Inl IndexError"
  by code_simp

subsection \<open>The order of the matches and the callbacks\<close>








end
